theory Spec2Isabelle
  imports Main "HOL-Library.Sublist"
begin

section \<open>JavaScript strings and the regular expressions the program uses\<close>

text \<open>
  A JavaScript string is modelled as a \<open>string\<close> (a list of 8-bit characters), which
  covers ASCII file contents. \<open>indexOf\<close> is the index of the first occurrence of the
  pattern, or \<open>-1\<close>; \<open>substring\<close> clamps both arguments to \<open>[0, length]\<close> and swaps
  them when the first is larger, as \<open>String.prototype.substring\<close> does.
\<close>

fun first_occ :: "string \<Rightarrow> string \<Rightarrow> nat option" where
  "first_occ pat [] = (if pat = [] then Some 0 else None)"
| "first_occ pat (c # cs) =
     (if prefix pat (c # cs) then Some 0 else map_option Suc (first_occ pat cs))"

definition indexOf :: "string \<Rightarrow> string \<Rightarrow> int" where
  "indexOf s pat = (case first_occ pat s of None \<Rightarrow> - 1 | Some i \<Rightarrow> int i)"

definition clamp_index :: "string \<Rightarrow> int \<Rightarrow> nat" where
  "clamp_index s i = (if i < 0 then 0 else if int (length s) < i then length s else nat i)"

definition substring :: "string \<Rightarrow> int \<Rightarrow> int \<Rightarrow> string" where
  "substring s start end =
     (let a = clamp_index s start; b = clamp_index s end;
          lo = min a b; hi = max a b
      in take (hi - lo) (drop lo s))"

definition str_includes :: "string \<Rightarrow> string \<Rightarrow> bool" where
  "str_includes s pat = (first_occ pat s \<noteq> None)"

definition endsWith :: "string \<Rightarrow> string \<Rightarrow> bool" where
  "endsWith s suf = (length suf \<le> length s \<and> drop (length s - length suf) s = suf)"

text \<open>
  The regular expressions of the program are sequences of single-character matchers,
  greedy stars of single-character matchers, the start anchor \<open>^\<close> and one capture
  group. \<open>matchHere\<close> is the backtracking matcher at a fixed start position: a star
  first tries to take one more character and falls back to the rest of the pattern.
  \<open>str_match\<close> is \<open>String.prototype.match\<close> for a pattern without the global flag: the
  leftmost start position that matches wins, and the result is the matched text
  followed by the text of each group, or \<open>None\<close> for JavaScript's \<open>null\<close>.
\<close>

datatype cset = One char | Ranges "(char \<times> char) list" | AnyChar

fun accepts :: "cset \<Rightarrow> char \<Rightarrow> bool" where
  "accepts (One d) c = (c = d)"
| "accepts (Ranges rs) c =
     list_ex (\<lambda>(lo, hi). (of_char lo :: nat) \<le> of_char c \<and> (of_char c :: nat) \<le> of_char hi) rs"
| "accepts AnyChar c = (c \<noteq> CHR 0x0A \<and> c \<noteq> CHR 0x0D)"

datatype node = Single cset | Star cset | Bol | Open | Close

type_synonym regex = "node list"

fun matchHere ::
  "regex \<Rightarrow> nat \<Rightarrow> string \<Rightarrow> nat list \<Rightarrow> (nat \<times> nat) list \<Rightarrow> (nat \<times> (nat \<times> nat) list) option"
where
  "matchHere [] pos rest opens caps = Some (pos, caps)"
| "matchHere (Bol # re) pos rest opens caps =
     (if pos = 0 then matchHere re pos rest opens caps else None)"
| "matchHere (Open # re) pos rest opens caps = matchHere re pos rest (pos # opens) caps"
| "matchHere (Close # re) pos rest [] caps = None"
| "matchHere (Close # re) pos rest (p # ps) caps = matchHere re pos rest ps (caps @ [(p, pos)])"
| "matchHere (Single cs # re) pos [] opens caps = None"
| "matchHere (Single cs # re) pos (c # rest) opens caps =
     (if accepts cs c then matchHere re (Suc pos) rest opens caps else None)"
| "matchHere (Star cs # re) pos [] opens caps = matchHere re pos [] opens caps"
| "matchHere (Star cs # re) pos (c # rest) opens caps =
     (if accepts cs c
      then (case matchHere (Star cs # re) (Suc pos) rest opens caps of
              Some r \<Rightarrow> Some r
            | None \<Rightarrow> matchHere re pos (c # rest) opens caps)
      else matchHere re pos (c # rest) opens caps)"

definition slice :: "string \<Rightarrow> nat \<Rightarrow> nat \<Rightarrow> string" where
  "slice s a b = take (b - a) (drop a s)"

fun search :: "regex \<Rightarrow> string \<Rightarrow> nat \<Rightarrow> string \<Rightarrow> string list option" where
  "search re s pos rest =
     (case matchHere re pos rest [] [] of
        Some (e, caps) \<Rightarrow> Some (slice s pos e # map (\<lambda>(a, b). slice s a b) caps)
      | None \<Rightarrow> (case rest of [] \<Rightarrow> None | c # rest' \<Rightarrow> search re s (Suc pos) rest'))"

definition str_match :: "string \<Rightarrow> regex \<Rightarrow> string list option" where
  "str_match s re = search re s 0 s"

definition regex_test :: "regex \<Rightarrow> string \<Rightarrow> bool" where
  "regex_test re s = (str_match s re \<noteq> None)"

definition literal :: "string \<Rightarrow> regex" where
  "literal l = map (\<lambda>c. Single (One c)) l"

section \<open>deploy/index.ts: isValidProjectName\<close>

text \<open>\<^verbatim>\<open>/^[A-Z](.*)/.test(projectName)\<close>\<close>

definition projectNameRegex :: regex where
  "projectNameRegex = [Bol, Single (Ranges [(CHR ''A'', CHR ''Z'')]), Open, Star AnyChar, Close]"

definition isValidProjectName :: "string \<Rightarrow> bool" where
  "isValidProjectName projectName = regex_test projectNameRegex projectName"

section \<open>utils/file.ts: the project file\<close>

text \<open>
  \<open>Resolver\<close> is an interface declared outside these files (\<open>read(path): string\<close>,
  \<open>write(path, contents)\<close>); it is modelled as a store from paths to contents in which
  \<open>read\<close> returns what the last \<open>write\<close> to the path stored.
\<close>

type_synonym resolver = "string \<Rightarrow> string"

definition resolver_read :: "resolver \<Rightarrow> string \<Rightarrow> string" where
  "resolver_read resolver path = resolver path"

text \<open>The store in which every path holds the same contents.\<close>

definition resolver_of :: "string \<Rightarrow> resolver" where
  "resolver_of contents = (\<lambda>_. contents)"

definition resolver_write :: "resolver \<Rightarrow> string \<Rightarrow> string \<Rightarrow> resolver" where
  "resolver_write resolver path contents = resolver(path := contents)"

record ProjectInfo =
  projectId :: string
  version :: "string option"
  schema :: string

text \<open>\<open>/# project: ([a-z0-9]*)/\<close> and \<open>/# version: ([a-z0-9]*)/\<close>\<close>

definition idChars :: cset where
  "idChars = Ranges [(CHR ''a'', CHR ''z''), (CHR ''0'', CHR ''9'')]"

definition projectIdRegex :: regex where
  "projectIdRegex = literal ''# project: '' @ [Open, Star idChars, Close]"

definition versionRegex :: regex where
  "versionRegex = literal ''# version: '' @ [Open, Star idChars, Close]"

definition readProjectIdFromProjectFile :: "resolver \<Rightarrow> string \<Rightarrow> string option" where
  "readProjectIdFromProjectFile resolver path =
     (let contents = resolver_read resolver path;
          matches = str_match contents projectIdRegex
      in case matches of
           None \<Rightarrow> None
         | Some ms \<Rightarrow> if length ms \<noteq> 2 then None else Some (ms ! 1))"

definition readVersionFromProjectFile :: "resolver \<Rightarrow> string \<Rightarrow> string option" where
  "readVersionFromProjectFile resolver path =
     (let contents = resolver_read resolver path;
          matches = str_match contents versionRegex
      in case matches of
           None \<Rightarrow> None
         | Some ms \<Rightarrow> if length ms \<noteq> 2 then None else Some (ms ! 1))"

definition readDataModelFromProjectFile :: "resolver \<Rightarrow> string \<Rightarrow> string" where
  "readDataModelFromProjectFile resolver path =
     (let contents = resolver_read resolver path;
          dataModelStartIndex = indexOf contents ''type'';
          dataModel = substring contents dataModelStartIndex (int (length contents))
      in dataModel)"

text \<open>
  \<open>!projectId\<close> holds for \<open>undefined\<close> and for the empty string.
\<close>

definition readProjectInfoFromProjectFile :: "resolver \<Rightarrow> string \<Rightarrow> ProjectInfo option" where
  "readProjectInfoFromProjectFile resolver path =
     (case readProjectIdFromProjectFile resolver path of
        None \<Rightarrow> None
      | Some pid \<Rightarrow>
          if pid = [] then None
          else Some \<lparr>projectId = pid,
                     version = readVersionFromProjectFile resolver path,
                     schema = readDataModelFromProjectFile resolver path\<rparr>)"

text \<open>
  \<open>projectFileSuffix\<close> and \<open>graphcoolProjectFileName\<close> come from \<open>./constants\<close>, which is
  not among the files; they are parameters of the model.
\<close>

record constants =
  projectFileSuffix :: string
  graphcoolProjectFileName :: string

definition isValidProjectFilePath :: "constants \<Rightarrow> string option \<Rightarrow> bool" where
  "isValidProjectFilePath k projectFilePath =
     (case projectFilePath of
        None \<Rightarrow> False
      | Some p \<Rightarrow> if p = [] then False else endsWith p (projectFileSuffix k))"

text \<open>
  Modelled from the spec: \<open>projectInfoToContents\<close> (imported from \<open>./utils\<close>, not among
  the files). The spec gives the persisted format: a line \<open># project: <id>\<close>, an
  optional line \<open># version: <v>\<close>, and the raw schema text as the remainder.
\<close>

definition projectInfoToContents :: "ProjectInfo \<Rightarrow> string" where
  "projectInfoToContents info =
     ''# project: '' @ projectId info @ ''\<newline>'' @
     (case version info of None \<Rightarrow> [] | Some v \<Rightarrow> ''# version: '' @ v @ ''\<newline>'') @
     ''\<newline>'' @ schema info"

definition writeProjectFile ::
  "constants \<Rightarrow> ProjectInfo \<Rightarrow> resolver \<Rightarrow> string option \<Rightarrow> resolver" where
  "writeProjectFile k projectInfo resolver path =
     (let path' = (if isValidProjectFilePath k path then the path
                   else graphcoolProjectFileName k)
      in resolver_write resolver path' (projectInfoToContents projectInfo))"

section \<open>deploy/index.ts: the deploy command\<close>

subsection \<open>Values, collaborators and state\<close>

text \<open>
  Console text keeps its \<open>chalk\<close> styling as segments. A flag or variable that may be
  \<open>undefined\<close> is an \<open>option\<close>; \<open>truthy\<close> is JavaScript's truthiness of such a string
  (\<open>undefined\<close> and the empty string are falsy) and \<open>js_or\<close> is \<open>a || b\<close>.
\<close>

datatype style = Bold | Red | Green | Cyan | Rgb nat nat nat

datatype segment = Plain string | Styled style "string option"

type_synonym styled_text = "segment list"

definition truthy :: "string option \<Rightarrow> bool" where
  "truthy v = (v \<noteq> None \<and> v \<noteq> Some [])"

definition js_or :: "string option \<Rightarrow> string option \<Rightarrow> string option" where
  "js_or a b = (if truthy a then a else b)"

record Flags =
  flag_target :: "string option"
  flag_force :: bool
  flag_watch :: bool
  flag_new_service :: "string option"
  flag_new_service_cluster :: "string option"
  flag_alias :: "string option"

record Target =
  target_cluster :: string
  target_id :: string

record FoundTarget =
  found_targetName :: string
  found_target :: Target

text \<open>
  The result of a push. The program tests both lists for absence
  (\<open>!migrationResult.migrationMessages\<close>), so each is an \<open>option\<close>; reading \<open>.length\<close> of
  an absent list raises a \<open>TypeError\<close>. The types of a migration message and of a
  project definition are parameters.
\<close>

record MigrationError =
  description :: string

record ('m, 'd) MigrationResult =
  migrationMessages :: "'m list option"
  errors :: "MigrationError list option"
  projectDefinition :: "'d option"

text \<open>
  Modelled from the spec: the type \<open>MigrationResult\<close> (declared outside these files).
  The spec gives \<open>migrationMessages\<close> and \<open>errors\<close> as sequences, possibly empty; a result
  of that type has both lists present.
\<close>

definition well_typed :: "('m, 'd) MigrationResult \<Rightarrow> bool" where
  "well_typed mr = (migrationMessages mr \<noteq> None \<and> errors mr \<noteq> None)"

datatype error = TypeError | Rejected string | ServiceDoesntExistError Target

datatype outcome = Returned | Threw error

text \<open>
  Every call on a collaborator (\<open>this.out\<close>, \<open>this.definition\<close>, \<open>this.env\<close>,
  \<open>this.auth\<close>, \<open>this.client\<close>, \<open>chokidar\<close>) is recorded, in order, in the state.
\<close>

datatype ('m, 'd) effect =
    ActionStart styled_text
  | ActionStop
  | Log styled_text
  | PrintMessages "'m list"
  | PrintErrors "MigrationError list"
  | EnsureAuth
  | DefinitionLoad
  | InjectEnvironment
  | DefinitionSet "'d option"
  | SetActiveCluster string
  | ClientCreateProject string "string option" "string option"
  | ClientPush string bool bool "'d option"
  | SetLocalTarget "string option" string
  | SetLocalDefaultTarget "string option"
  | SaveLocalRC
  | ChokidarWatch string

record ('m, 'd) state =
  deploying :: bool
  effects :: "('m, 'd) effect list"
  definition_definition :: "'d option"
  activeCluster :: string

text \<open>
  What the collaborators answer. They are declared outside these files and are
  parameters of the model; a call that fails rejects with a message.
\<close>

record ('m, 'd) collaborators =
  getTargetWithName :: "string option \<Rightarrow> FoundTarget option"
  getDefaultTargetName :: "string \<Rightarrow> string"
  isSharedCluster :: "string \<Rightarrow> bool"
  getRegionFromCluster :: "string \<Rightarrow> string option"
  env_default :: "string option"
  simpleEndpoint :: "string \<Rightarrow> string"
  ensureAuth :: "string option"
  definition_load :: "Flags \<Rightarrow> string + 'd"
  injectEnvironment :: "'d option \<Rightarrow> 'd option"
  sillyName :: string
  client_createProject :: "string \<Rightarrow> string option \<Rightarrow> string option \<Rightarrow> string + string"
  client_push :: "string \<Rightarrow> bool \<Rightarrow> bool \<Rightarrow> 'd option \<Rightarrow> string + ('m, 'd) MigrationResult"
  definitionDir :: string

definition emit :: "('m, 'd) effect \<Rightarrow> ('m, 'd) state \<Rightarrow> ('m, 'd) state" where
  "emit e s = s\<lparr>effects := effects s @ [e]\<rparr>"

definition bind ::
  "outcome \<times> ('m, 'd) state \<Rightarrow> (('m, 'd) state \<Rightarrow> outcome \<times> ('m, 'd) state)
     \<Rightarrow> outcome \<times> ('m, 'd) state" where
  "bind r f = (case r of (Returned, s) \<Rightarrow> f s | (Threw e, s) \<Rightarrow> (Threw e, s))"

text \<open>
  Modelled from the spec: \<open>definition.load\<close> (declared outside these files).
  \<open>load(flags)\<close> populates the current definition from disk and flags, or rejects.
\<close>

definition definition_load_call ::
  "('m, 'd) collaborators \<Rightarrow> Flags \<Rightarrow> ('m, 'd) state \<Rightarrow> outcome \<times> ('m, 'd) state" where
  "definition_load_call env flags s =
     (case definition_load env flags of
        Inl msg \<Rightarrow> (Threw (Rejected msg), emit DefinitionLoad s)
      | Inr d \<Rightarrow> (Returned, (emit DefinitionLoad s)\<lparr>definition_definition := Some d\<rparr>))"

text \<open>
  Modelled from the spec: \<open>definition.injectEnvironment\<close> (declared outside these files)
  rewrites the current definition in place.
\<close>

definition definition_injectEnvironment ::
  "('m, 'd) collaborators \<Rightarrow> ('m, 'd) state \<Rightarrow> ('m, 'd) state" where
  "definition_injectEnvironment env s =
     (emit InjectEnvironment s)
       \<lparr>definition_definition := injectEnvironment env (definition_definition s)\<rparr>"

text \<open>
  Modelled from the spec: \<open>definition.set\<close> (declared outside these files).
  \<open>set(definition)\<close> overwrites the current definition with its argument.
\<close>

definition definition_set :: "'d option \<Rightarrow> ('m, 'd) state \<Rightarrow> ('m, 'd) state" where
  "definition_set d s = (emit (DefinitionSet d) s)\<lparr>definition_definition := d\<rparr>"

text \<open>
  Modelled from the spec: \<open>env.setActiveCluster\<close> (declared outside these files) assigns
  the process-wide active cluster that \<open>env.activeCluster\<close> reads.
\<close>

definition setActiveCluster :: "string \<Rightarrow> ('m, 'd) state \<Rightarrow> ('m, 'd) state" where
  "setActiveCluster cluster s = (emit (SetActiveCluster cluster) s)\<lparr>activeCluster := cluster\<rparr>"

subsection \<open>Deploy.deploy\<close>

definition upToDateText :: styled_text where
  "upToDateText = [Plain ''Everything up-to-date.'']"

definition endpointText :: "('m, 'd) collaborators \<Rightarrow> string \<Rightarrow> styled_text" where
  "endpointText env projectId' = [Plain (''Endpoint: '' @ simpleEndpoint env projectId')]"

definition dataLossHint :: styled_text where
  "dataLossHint =
     [Plain ''Your changes might result in data loss.\<newline>          Use '',
      Styled Cyan (Some ''`graphcool deploy --force`''),
      Plain '' if you know what you're doing!\<newline>'']"

text \<open>
  The part of \<open>deploy\<close> before the awaited push (lines 173 to 191): the flag is set, the
  progress indicator starts, the push is sent.
\<close>

definition deployingText :: "bool \<Rightarrow> string option \<Rightarrow> bool \<Rightarrow> string option \<Rightarrow> styled_text" where
  "deployingText projectIsNew targetName isLocal projectName =
     (let localNote = (if isLocal then '' locally'' else [])
      in if projectIsNew then [Plain (''Deploying'' @ localNote)]
         else [Plain ''Deploying to '', Styled Bold projectName,
               Plain '' with target '', Styled Bold targetName, Plain localNote])"

definition deploy_begin ::
  "bool \<Rightarrow> string option \<Rightarrow> string \<Rightarrow> bool \<Rightarrow> bool \<Rightarrow> string option
     \<Rightarrow> ('m, 'd) state \<Rightarrow> ('m, 'd) state" where
  "deploy_begin projectIsNew targetName projectId' isLocal force projectName s =
     (let s1 = s\<lparr>deploying := True\<rparr>;
          s2 = emit (ActionStart (deployingText projectIsNew targetName isLocal projectName)) s1
      in emit (ClientPush projectId' force False (definition_definition s2)) s2)"

text \<open>
  The part of \<open>deploy\<close> after the push has answered (lines 192 to 247).
\<close>

definition deploy_resume ::
  "('m, 'd) collaborators \<Rightarrow> bool \<Rightarrow> string \<Rightarrow> ('m, 'd) MigrationResult
     \<Rightarrow> ('m, 'd) state \<Rightarrow> outcome \<times> ('m, 'd) state" where
  "deploy_resume env projectIsNew projectId' migrationResult s0 =
     (let s1 = emit ActionStop s0 in
      if (migrationMessages migrationResult = None \<or> migrationMessages migrationResult = Some []) \<and>
         (errors migrationResult = None \<or> errors migrationResult = Some [])
      then
        (let s2 = emit (Log upToDateText) s1;
             s3 = emit (Log (endpointText env projectId')) s2
         in (Returned, s3\<lparr>deploying := False\<rparr>))
      else
        bind
          (case migrationMessages migrationResult of
             None \<Rightarrow> (Threw TypeError, s1)
           | Some messages \<Rightarrow>
               if messages \<noteq> [] then
                 bind
                   (if projectIsNew
                    then (Returned,
                          emit (Log [Plain ''\<newline>Success! Created the following service:'']) s1)
                    else
                      (case errors migrationResult of
                         None \<Rightarrow> (Threw TypeError, s1)
                       | Some errs \<Rightarrow>
                           (Returned,
                            emit (Log (if errs \<noteq> []
                                       then [Styled Red (Some ''Error!''),
                                             Plain '' Here are the potential changes:'']
                                       else [Styled Green (Some ''Success!''),
                                             Plain '' Here is what changed:''])) s1)))
                   (\<lambda>s2.
                      let s3 = emit (PrintMessages messages) s2
                      in (Returned, definition_set (projectDefinition migrationResult) s3))
               else (Returned, s1))
          (\<lambda>s5.
             case errors migrationResult of
               None \<Rightarrow> (Threw TypeError, s5)
             | Some errs \<Rightarrow>
                 (let s6 = (if errs \<noteq> [] then
                              emit (Log [Plain []])
                                (emit (PrintErrors errs)
                                  (emit (Log [Styled (Rgb 244 157 65)
                                     (Some ''There are issues with the new service definition:'')])
                                    s5))
                            else s5);
                      s7 = (case errs of
                              [] \<Rightarrow> s6
                            | e # _ \<Rightarrow>
                                if str_includes (description e) ''destructive changes''
                                then emit (Log dataLossHint) s6 else s6);
                      s8 = s7\<lparr>deploying := False\<rparr>
                  in (Returned, emit (Log (endpointText env projectId')) s8))))"

definition deploy ::
  "('m, 'd) collaborators \<Rightarrow> bool \<Rightarrow> string option \<Rightarrow> string \<Rightarrow> bool \<Rightarrow> bool \<Rightarrow> string option
     \<Rightarrow> ('m, 'd) state \<Rightarrow> outcome \<times> ('m, 'd) state" where
  "deploy env projectIsNew targetName projectId' isLocal force projectName s =
     (let s1 = deploy_begin projectIsNew targetName projectId' isLocal force projectName s in
      case client_push env projectId' force False (definition_definition s1) of
        Inl msg \<Rightarrow> (Threw (Rejected msg), s1)
      | Inr migrationResult \<Rightarrow> deploy_resume env projectIsNew projectId' migrationResult s1)"

subsection \<open>Deploy.createProject and Deploy.run\<close>

definition createProject ::
  "('m, 'd) collaborators \<Rightarrow> bool \<Rightarrow> string \<Rightarrow> string option \<Rightarrow> string option \<Rightarrow> string option
     \<Rightarrow> ('m, 'd) state \<Rightarrow> (error + string) \<times> ('m, 'd) state" where
  "createProject env isLocal cluster name alias region s =
     (let localNote = (if isLocal then '' locally'' else []);
          projectName = (if truthy name then the name else sillyName env);
          s1 = emit (Log [Plain []]) s;
          projectMessage =
            [Plain ''Creating service '', Styled Bold (Some projectName),
             Plain (localNote @ '' in cluster '' @ cluster)];
          s2 = emit (ActionStart projectMessage) s1;
          s3 = emit (ClientCreateProject projectName alias region) s2
      in case client_createProject env projectName alias region of
           Inl msg \<Rightarrow> (Inl (Rejected msg), s3)
         | Inr createdId \<Rightarrow> (Inr createdId, emit ActionStop s3))"

text \<open>Lines 62 to 77 of \<open>run\<close>: the target name, the target and the cluster.\<close>

definition resolve ::
  "('m, 'd) collaborators \<Rightarrow> Flags \<Rightarrow> ('m, 'd) state
     \<Rightarrow> (string option \<times> Target option \<times> string option) \<times> ('m, 'd) state" where
  "resolve env flags s =
     (let newServiceName = flag_new_service flags;
          newServiceCluster = flag_new_service_cluster flags
      in if truthy newServiceName then
           (let s1 = (if truthy newServiceCluster
                      then setActiveCluster (the newServiceCluster) s
                      else s);
                cluster = activeCluster s1;
                targetName = js_or (flag_target flags) (Some (getDefaultTargetName env cluster))
            in ((targetName, None, Some cluster), s1))
         else
           (case getTargetWithName env (flag_target flags) of
              None \<Rightarrow> ((None, None, None), s)
            | Some foundTarget \<Rightarrow>
                ((Some (found_targetName foundTarget), Some (found_target foundTarget), None), s)))"

text \<open>
  Lines 79 to 132 of \<open>run\<close>. The inner test \<open>if (target)\<close> of line 93 stands inside the
  branch \<open>if (!target)\<close> of line 91, as in the source. \<open>out.error\<close> ends the command
  with the error it is given.
\<close>

definition run ::
  "('m, 'd) collaborators \<Rightarrow> Flags \<Rightarrow> ('m, 'd) state \<Rightarrow> outcome \<times> ('m, 'd) state" where
  "run env flags s0 =
     (let force = flag_force flags; watch = flag_watch flags; alias = flag_alias flags;
          newServiceName = flag_new_service flags
      in case resolve env flags s0 of
        ((targetName, target, cluster0), s1) \<Rightarrow>
          (case ensureAuth env of
             Some msg \<Rightarrow> (Threw (Rejected msg), emit EnsureAuth s1)
           | None \<Rightarrow>
               (case definition_load_call env flags (emit EnsureAuth s1) of
                  (Threw e, s') \<Rightarrow> (Threw e, s')
                | (Returned, s') \<Rightarrow>
                    (let s2 = definition_injectEnvironment env s';
                         cluster = (if truthy cluster0 then the cluster0
                                    else (case target of
                                            Some t \<Rightarrow> target_cluster t
                                          | None \<Rightarrow> activeCluster s2));
                         isLocal = (\<not> isSharedCluster env cluster);
                         branch =
                           (if target = None then
                              (if target \<noteq> None
                               then (Inl (ServiceDoesntExistError (the target)), s2)
                               else
                                 (let region = getRegionFromCluster env cluster in
                                  case createProject env isLocal cluster newServiceName alias region s2 of
                                    (Inl e, s3) \<Rightarrow> (Inl e, s3)
                                  | (Inr projectId', s3) \<Rightarrow>
                                      (let s4 = emit (SetLocalTarget targetName
                                                   (cluster @ ''/'' @ projectId')) s3;
                                           s5 = (if \<not> truthy (env_default env)
                                                 then emit (SetLocalDefaultTarget targetName) s4
                                                 else s4);
                                           s6 = emit SaveLocalRC s5
                                       in (Inr (projectId', True), s6))))
                            else (Inr (target_id (the target), False), s2));
                         projectName = js_or newServiceName targetName
                     in case branch of
                          (Inl e, s7) \<Rightarrow> (Threw e, s7)
                        | (Inr (projectId', projectIsNew), s7) \<Rightarrow>
                            bind (deploy env projectIsNew targetName projectId' isLocal force
                                    projectName s7)
                              (\<lambda>s8. if watch
                                     then (Returned,
                                           emit (ChokidarWatch (definitionDir env))
                                             (emit (Log [Plain ''Watching for change...'']) s8))
                                     else (Returned, s8))))))"

subsection \<open>The watch callback\<close>

text \<open>
  The variables the callback of lines 124 to 130 closes over.
\<close>

record closure =
  c_flags :: Flags
  c_projectIsNew :: bool
  c_targetName :: "string option"
  c_projectId :: string
  c_isLocal :: bool
  c_force :: bool
  c_projectName :: "string option"

text \<open>
  The callback run to its end with nothing in between: every \<open>await\<close> is answered at
  once by the collaborator.
\<close>

definition watch_callback ::
  "('m, 'd) collaborators \<Rightarrow> closure \<Rightarrow> ('m, 'd) state \<Rightarrow> outcome \<times> ('m, 'd) state" where
  "watch_callback env c s =
     (if \<not> deploying s then
        bind (definition_load_call env (c_flags c) s)
          (\<lambda>s1.
             bind (deploy env (c_projectIsNew c) (c_targetName c) (c_projectId c) (c_isLocal c)
                     (c_force c) (c_projectName c) s1)
               (\<lambda>s2. (Returned, emit (Log [Plain ''Watching for change...'']) s2)))
      else (Returned, s))"

text \<open>
  The same callback on the event loop. An \<open>async\<close> function runs until its next
  \<open>await\<close> and resumes when the awaited promise settles; other callbacks run in
  between (the load is recorded when it is called and populates the definition when
  it settles). Each file-change event schedules one callback (\<open>setImmediate\<close>); a callback
  is \<open>Scheduled\<close>, then past the test of the flag and awaiting \<open>definition.load\<close>
  (\<open>Loading\<close>), then inside \<open>deploy\<close> awaiting \<open>client.push\<close> (\<open>Pushing\<close>), then
  \<open>Done\<close> or \<open>Failed\<close>. The events are what the environment does: a file changes, the
  loop runs a scheduled callback, a load settles, a push settles.
\<close>

datatype stage = Scheduled | Loading | Pushing | Done | Failed error

record ('m, 'd) system =
  orchestrator :: "('m, 'd) state"
  callbacks :: "stage list"

datatype ('m, 'd) event =
    FileChange
  | RunImmediate nat
  | LoadSettled nat "string + 'd"
  | PushSettled nat "string + ('m, 'd) MigrationResult"

fun step ::
  "('m, 'd) collaborators \<Rightarrow> closure \<Rightarrow> ('m, 'd) system \<Rightarrow> ('m, 'd) event \<Rightarrow> ('m, 'd) system"
where
  "step env c sys FileChange = sys\<lparr>callbacks := callbacks sys @ [Scheduled]\<rparr>"
| "step env c sys (RunImmediate k) =
     (if k < length (callbacks sys) \<and> callbacks sys ! k = Scheduled then
        (if \<not> deploying (orchestrator sys)
         then sys\<lparr>orchestrator := emit DefinitionLoad (orchestrator sys),
                  callbacks := (callbacks sys)[k := Loading]\<rparr>
         else sys\<lparr>callbacks := (callbacks sys)[k := Done]\<rparr>)
      else sys)"
| "step env c sys (LoadSettled k r) =
     (if k < length (callbacks sys) \<and> callbacks sys ! k = Loading then
        (case r of
           Inl msg \<Rightarrow> sys\<lparr>callbacks := (callbacks sys)[k := Failed (Rejected msg)]\<rparr>
         | Inr d \<Rightarrow>
             sys\<lparr>orchestrator :=
                   deploy_begin (c_projectIsNew c) (c_targetName c) (c_projectId c) (c_isLocal c)
                     (c_force c) (c_projectName c)
                     ((orchestrator sys)\<lparr>definition_definition := Some d\<rparr>),
                 callbacks := (callbacks sys)[k := Pushing]\<rparr>)
      else sys)"
| "step env c sys (PushSettled k r) =
     (if k < length (callbacks sys) \<and> callbacks sys ! k = Pushing then
        (case r of
           Inl msg \<Rightarrow> sys\<lparr>callbacks := (callbacks sys)[k := Failed (Rejected msg)]\<rparr>
         | Inr migrationResult \<Rightarrow>
             (case deploy_resume env (c_projectIsNew c) (c_projectId c) migrationResult
                     (orchestrator sys) of
                (Returned, s') \<Rightarrow>
                  sys\<lparr>orchestrator := emit (Log [Plain ''Watching for change...'']) s',
                      callbacks := (callbacks sys)[k := Done]\<rparr>
              | (Threw e, s') \<Rightarrow>
                  sys\<lparr>orchestrator := s', callbacks := (callbacks sys)[k := Failed e]\<rparr>))
      else sys)"

definition run_events ::
  "('m, 'd) collaborators \<Rightarrow> closure \<Rightarrow> ('m, 'd) system \<Rightarrow> ('m, 'd) event list \<Rightarrow> ('m, 'd) system"
where
  "run_events env c sys evs = foldl (step env c) sys evs"

definition in_flight :: "('m, 'd) system \<Rightarrow> nat" where
  "in_flight sys = length (filter (\<lambda>st. st = Pushing) (callbacks sys))"

subsection \<open>Example inputs\<close>

text \<open>
  A set of collaborators whose push answers with a given result, an idle orchestrator,
  and the closure of a watch callback on an existing project; used to evaluate the model
  on concrete inputs.
\<close>

definition example_env ::
  "string + (string, string) MigrationResult \<Rightarrow> (string, string) collaborators" where
  "example_env answer =
     \<lparr>getTargetWithName = (\<lambda>_. None),
      getDefaultTargetName = (\<lambda>_. ''dev''),
      isSharedCluster = (\<lambda>_. True),
      getRegionFromCluster = (\<lambda>_. None),
      env_default = None,
      simpleEndpoint = (\<lambda>p. ''https://api.graph.cool/simple/v1/'' @ p),
      ensureAuth = None,
      definition_load = (\<lambda>_. Inr ''local definition''),
      injectEnvironment = (\<lambda>d. d),
      sillyName = ''Silly Name'',
      client_createProject = (\<lambda>_ _ _. Inr ''cjnew''),
      client_push = (\<lambda>_ _ _ _. answer),
      definitionDir = ''.''\<rparr>"

definition idle :: "(string, string) state" where
  "idle = \<lparr>deploying = False, effects = [], definition_definition = Some ''local definition'',
           activeCluster = ''shared-eu-west-1''\<rparr>"

definition up_to_date :: "(string, string) MigrationResult" where
  "up_to_date = \<lparr>migrationMessages = Some [], errors = Some [], projectDefinition = None\<rparr>"

definition example_flags :: "string option \<Rightarrow> Flags" where
  "example_flags t =
     \<lparr>flag_target = t, flag_force = False, flag_watch = False, flag_new_service = None,
      flag_new_service_cluster = None, flag_alias = None\<rparr>"

definition example_closure :: closure where
  "example_closure =
     \<lparr>c_flags = example_flags (Some ''dev''), c_projectIsNew = False, c_targetName = Some ''dev'',
      c_projectId = ''cj1'', c_isLocal = False, c_force = False, c_projectName = Some ''dev''\<rparr>"

definition migrated :: "(string, string) MigrationResult" where
  "migrated = \<lparr>migrationMessages = Some [''The type `Post` is created.''], errors = Some [],
               projectDefinition = Some ''server definition''\<rparr>"

definition rejected_first :: "(string, string) MigrationResult" where
  "rejected_first =
     \<lparr>migrationMessages = Some [],
      errors = Some [\<lparr>description = ''Your migration includes potentially destructive changes.''\<rparr>,
                     \<lparr>description = ''The field `name` is required.''\<rparr>],
      projectDefinition = None\<rparr>"

definition rejected_second :: "(string, string) MigrationResult" where
  "rejected_second =
     \<lparr>migrationMessages = Some [],
      errors = Some [\<lparr>description = ''The field `name` is required.''\<rparr>,
                     \<lparr>description = ''Your migration includes potentially destructive changes.''\<rparr>],
      projectDefinition = None\<rparr>"

definition busy :: "(string, string) system" where
  "busy = \<lparr>orchestrator = idle\<lparr>deploying := True\<rparr>, callbacks = [Pushing, Scheduled]\<rparr>"

definition example_constants :: constants where
  "example_constants =
     \<lparr>projectFileSuffix = ''.graphcool'', graphcoolProjectFileName = ''project.graphcool''\<rparr>"

section \<open>Strings and regular expressions: what the matcher computes\<close>

lemma first_occ_None_iff: "first_occ pat s = None \<longleftrightarrow> \<not> sublist pat s"
  by (induction s) (auto simp: sublist_Cons_right)

lemma str_includes_iff: "str_includes s pat \<longleftrightarrow> sublist pat s"
  by (simp add: str_includes_def first_occ_None_iff)

text \<open>
  The pattern occurs at \<open>length pre\<close> and nowhere before: an earlier occurrence would lie
  inside \<open>pre\<close> followed by all but the last character of the pattern.
\<close>

lemma first_occ_at:
  assumes "\<not> sublist pat (pre @ butlast pat)"
  shows "first_occ pat (pre @ pat @ rest) = Some (length pre)"
  using assms
proof (induction pre)
  case Nil
  have "pat \<noteq> []" using Nil by auto
  then show ?case by (cases "pat @ rest") (auto, metis prefixI)
next
  case (Cons a pre)
  have ne: "pat \<noteq> []" using Cons.prems by auto
  have "\<not> prefix pat (a # pre @ pat @ rest)"
  proof
    assume p: "prefix pat (a # pre @ pat @ rest)"
    have q: "prefix (a # pre @ butlast pat) (a # pre @ pat @ rest)"
      by (metis append_butlast_last_id ne append.assoc prefixI Cons_prefix_Cons
          same_prefix_prefix prefix_order.order_refl)
    have "length pat \<le> length (a # pre @ butlast pat)" using ne by (cases pat) auto
    with p q have "prefix pat (a # pre @ butlast pat)"
      by (metis prefix_length_prefix)
    then show False using Cons.prems by auto
  qed
  moreover have "\<not> sublist pat (pre @ butlast pat)"
    using Cons.prems by (auto simp: sublist_Cons_right)
  ultimately show ?case using Cons.IH by simp
qed

lemma substring_from_index:
  "i \<le> length s \<Longrightarrow> substring s (int i) (int (length s)) = drop i s"
  by (simp add: substring_def clamp_index_def Let_def)

lemma substring_from_minus_one: "substring s (- 1) (int (length s)) = s"
  by (simp add: substring_def clamp_index_def Let_def)

lemma accepts_upper:
  "accepts (Ranges [(CHR ''A'', CHR ''Z'')]) c \<longleftrightarrow> c \<in> set ''ABCDEFGHIJKLMNOPQRSTUVWXYZ''"
proof (cases c)
  case (Char b0 b1 b2 b3 b4 b5 b6 b7)
  show ?thesis unfolding Char
    by (cases b0; cases b1; cases b2; cases b3; cases b4; cases b5; cases b6; cases b7) simp_all
qed

lemma accepts_idChars:
  "accepts idChars c \<longleftrightarrow> c \<in> set ''abcdefghijklmnopqrstuvwxyz0123456789''"
proof (cases c)
  case (Char b0 b1 b2 b3 b4 b5 b6 b7)
  show ?thesis unfolding Char idChars_def
    by (cases b0; cases b1; cases b2; cases b3; cases b4; cases b5; cases b6; cases b7) simp_all
qed

lemma accepts_idChars_fun:
  "accepts idChars = (\<lambda>c. c \<in> set ''abcdefghijklmnopqrstuvwxyz0123456789'')"
  by (rule ext) (rule accepts_idChars)

text \<open>A greedy star of a character class before the end of the group takes the longest run.\<close>

lemma matchHere_star_close:
  "matchHere [Star cs, Close] pos rest [p] caps =
     Some (pos + length (takeWhile (accepts cs) rest),
           caps @ [(p, pos + length (takeWhile (accepts cs) rest))])"
  by (induction rest arbitrary: pos) simp_all

lemma matchHere_literal:
  "matchHere (literal l @ re) pos rest opens caps =
     (if prefix l rest then matchHere re (pos + length l) (drop (length l) rest) opens caps
      else None)"
proof (induction l arbitrary: pos rest)
  case Nil
  then show ?case by (simp add: literal_def)
next
  case (Cons a l)
  then show ?case by (cases rest) (auto simp: literal_def)
qed

lemma search_Bol_later: "0 < pos \<Longrightarrow> search (Bol # re) s pos rest = None"
  by (induction rest arbitrary: pos) simp_all

lemma search_literal_group:
  "search (literal l @ [Open, Star cs, Close]) (before @ rest) (length before) rest =
     (case first_occ l rest of
        None \<Rightarrow> None
      | Some i \<Rightarrow>
          Some [l @ takeWhile (accepts cs) (drop (i + length l) rest),
                takeWhile (accepts cs) (drop (i + length l) rest)])"
proof (induction rest arbitrary: before)
  case Nil
  show ?case
    by (simp add: matchHere_literal matchHere_star_close slice_def)
next
  case (Cons c rest)
  show ?case
  proof (cases "prefix l (c # rest)")
    case True
    then obtain r where r: "c # rest = l @ r" by (auto simp: prefix_def)
    have tw: "take (length (takeWhile (accepts cs) r)) r = takeWhile (accepts cs) r"
      by (metis takeWhile_eq_take)
    show ?thesis using True
      apply (simp add: matchHere_literal matchHere_star_close slice_def
          del: search.simps add: search.simps[of _ _ _ "c # rest"])
      apply (simp add: r tw)
      done
  next
    case False
    have "search (literal l @ [Open, Star cs, Close]) ((before @ [c]) @ rest)
            (length (before @ [c])) rest =
       (case first_occ l rest of
          None \<Rightarrow> None
        | Some i \<Rightarrow> Some [l @ takeWhile (accepts cs) (drop (i + length l) rest),
                          takeWhile (accepts cs) (drop (i + length l) rest)])"
      by (rule Cons.IH)
    then show ?thesis using False
      by (simp add: matchHere_literal del: search.simps
            add: search.simps[of _ _ _ "c # rest"] split: option.splits)
  qed
qed

lemma str_match_literal_group:
  "str_match s (literal l @ [Open, Star cs, Close]) =
     (case first_occ l s of
        None \<Rightarrow> None
      | Some i \<Rightarrow>
          Some [l @ takeWhile (accepts cs) (drop (i + length l) s),
                takeWhile (accepts cs) (drop (i + length l) s)])"
  using search_literal_group[of l cs "[]" s] by (simp add: str_match_def)

section \<open>isValidProjectName\<close>

text \<open>
  Claim C10. For every string, \<open>isValidProjectName\<close> is true exactly when the string is
  not empty and its first character is one of the uppercase ASCII letters \<open>A\<close> to \<open>Z\<close>;
  in particular it is false for the empty string.
\<close>

theorem isValidProjectName_iff:
  "(isValidProjectName s \<longleftrightarrow> (s \<noteq> [] \<and> hd s \<in> set ''ABCDEFGHIJKLMNOPQRSTUVWXYZ'')) \<and>
   \<not> isValidProjectName []"
proof -
  have e: "\<not> isValidProjectName []"
    by (simp add: isValidProjectName_def regex_test_def str_match_def projectNameRegex_def)
  have "isValidProjectName s \<longleftrightarrow> (s \<noteq> [] \<and> hd s \<in> set ''ABCDEFGHIJKLMNOPQRSTUVWXYZ'')"
  proof (cases s)
    case Nil
    then show ?thesis using e by simp
  next
    case (Cons c cs)
    have "str_match s projectNameRegex \<noteq> None \<longleftrightarrow> accepts (Ranges [(CHR ''A'', CHR ''Z'')]) c"
      unfolding str_match_def projectNameRegex_def Cons
      by (simp add: matchHere_star_close search_Bol_later del: search.simps accepts.simps
            add: search.simps[of _ _ 0])
    then show ?thesis
      unfolding isValidProjectName_def regex_test_def accepts_upper by (simp add: Cons)
  qed
  with e show ?thesis by simp
qed

section \<open>The project file\<close>

lemma readDataModel_no_type:
  assumes "\<not> sublist ''type'' (resolver_read r path)"
  shows "readDataModelFromProjectFile r path = resolver_read r path"
proof -
  from assms have "first_occ ''type'' (resolver_read r path) = None"
    by (simp add: first_occ_None_iff)
  then show ?thesis
    by (simp add: readDataModelFromProjectFile_def indexOf_def substring_from_minus_one)
qed

lemma readDataModel_at_first_type:
  assumes "resolver_read r path = pre @ ''type'' @ rest"
    and "\<not> sublist ''type'' (pre @ ''typ'')"
  shows "readDataModelFromProjectFile r path = ''type'' @ rest"
proof -
  from assms(2) have "\<not> sublist ''type'' (pre @ butlast ''type'')" by simp
  then have "first_occ ''type'' (pre @ ''type'' @ rest) = Some (length pre)"
    by (rule first_occ_at)
  then have "indexOf (resolver_read r path) ''type'' = int (length pre)"
    using assms(1) by (simp add: indexOf_def)
  moreover have
    "substring (pre @ ''type'' @ rest) (int (length pre)) (int (length (pre @ ''type'' @ rest)))
       = drop (length pre) (pre @ ''type'' @ rest)"
    by (rule substring_from_index) simp
  ultimately show ?thesis
    using assms(1) by (simp add: readDataModelFromProjectFile_def)
qed

lemma readProjectId_eq:
  "readProjectIdFromProjectFile r path =
     (case first_occ ''# project: '' (resolver_read r path) of
        None \<Rightarrow> None
      | Some i \<Rightarrow>
          Some (takeWhile (accepts idChars)
                  (drop (i + length ''# project: '') (resolver_read r path))))"
  by (simp add: readProjectIdFromProjectFile_def projectIdRegex_def str_match_literal_group
        split: option.splits)

lemma readProjectId_absent:
  assumes "\<not> sublist ''# project: '' (resolver_read r path)"
  shows "readProjectIdFromProjectFile r path = None"
    and "readProjectInfoFromProjectFile r path = None"
proof -
  from assms have "first_occ ''# project: '' (resolver_read r path) = None"
    by (simp add: first_occ_None_iff)
  then show "readProjectIdFromProjectFile r path = None"
    by (simp add: readProjectId_eq)
  then show "readProjectInfoFromProjectFile r path = None"
    by (simp add: readProjectInfoFromProjectFile_def)
qed

lemma readProjectId_at_first:
  assumes "resolver_read r path = pre @ ''# project: '' @ rest"
    and "\<not> sublist ''# project: '' (pre @ ''# project:'')"
  shows "readProjectIdFromProjectFile r path =
           Some (takeWhile (\<lambda>c. c \<in> set ''abcdefghijklmnopqrstuvwxyz0123456789'') rest)"
proof -
  from assms(2) have "\<not> sublist ''# project: '' (pre @ butlast ''# project: '')" by simp
  then have "first_occ ''# project: '' (pre @ ''# project: '' @ rest) = Some (length pre)"
    by (rule first_occ_at)
  then have "readProjectIdFromProjectFile r path = Some (takeWhile (accepts idChars) rest)"
    using assms(1) by (simp add: readProjectId_eq)
  then show ?thesis by (simp only: accepts_idChars_fun)
qed

text \<open>
  Claim C6, as amended. \<open>readDataModelFromProjectFile\<close> returns the contents from the
  first occurrence of \<open>type\<close> to the end of the file; when \<open>type\<close> does not occur,
  \<open>indexOf\<close> is \<open>-1\<close>, \<open>substring\<close> clamps it to \<open>0\<close>, and the whole contents are
  returned unchanged.
\<close>

theorem readDataModel_first_type:
  "(\<not> sublist ''type'' (resolver_read r path) \<longrightarrow>
      readDataModelFromProjectFile r path = resolver_read r path) \<and>
   (\<forall>pre rest.
      resolver_read r path = pre @ ''type'' @ rest \<and> \<not> sublist ''type'' (pre @ ''typ'') \<longrightarrow>
      readDataModelFromProjectFile r path = ''type'' @ rest)"
  using readDataModel_no_type readDataModel_at_first_type by blast

theorem readDataModel_first_type_witness:
  "readDataModelFromProjectFile (resolver_of ''# project: abc'') ''project.graphcool'' = ''# project: abc'' \<and>
   readDataModelFromProjectFile (resolver_of ''# x type A'') ''project.graphcool'' = ''type A''"
proof
  have n: "\<not> sublist ''type'' (resolver_read (resolver_of ''# project: abc'') ''project.graphcool'')"
    unfolding resolver_read_def resolver_of_def by code_simp
  from readDataModel_first_type[of "resolver_of ''# project: abc''" "''project.graphcool''"] n
  show "readDataModelFromProjectFile (resolver_of ''# project: abc'') ''project.graphcool'' = ''# project: abc''"
    by (simp add: resolver_read_def resolver_of_def)
next
  have n: "\<not> sublist ''type'' (''# x '' @ ''typ'')" by code_simp
  have e: "resolver_read (resolver_of ''# x type A'') ''project.graphcool'' = ''# x '' @ ''type'' @ '' A''"
    by (simp add: resolver_read_def resolver_of_def)
  from readDataModel_first_type[of "resolver_of ''# x type A''" "''project.graphcool''"] n e
  have "readDataModelFromProjectFile (resolver_of ''# x type A'') ''project.graphcool'' = ''type'' @ '' A''"
    by blast
  then show "readDataModelFromProjectFile (resolver_of ''# x type A'') ''project.graphcool'' = ''type A''"
    by simp
qed

text \<open>
  The contents \<open># project: abc123\<close> hold no \<open>type\<close>, and the data model read from them is
  the whole contents, not an empty string.
\<close>

theorem readDataModel_no_type_counterexample:
  "\<not> sublist ''type'' ''# project: abc123'' \<and>
   readDataModelFromProjectFile (resolver_of ''# project: abc123'') ''project.graphcool''
     = ''# project: abc123'' \<and>
   readDataModelFromProjectFile (resolver_of ''# project: abc123'') ''project.graphcool'' \<noteq> []"
proof -
  have a: "\<not> sublist ''type'' ''# project: abc123''" by code_simp
  have b: "readDataModelFromProjectFile (resolver_of ''# project: abc123'') ''project.graphcool''
     = ''# project: abc123''"
    by (simp add: readDataModelFromProjectFile_def resolver_read_def resolver_of_def indexOf_def substring_def
          clamp_index_def)
  from a b show ?thesis by simp
qed

text \<open>
  Claim C8, as amended. When the text \<open># project: \<close> does not occur in the contents,
  \<open>readProjectIdFromProjectFile\<close> and \<open>readProjectInfoFromProjectFile\<close> both return
  \<open>undefined\<close>. When it occurs, \<open>readProjectIdFromProjectFile\<close> returns the run of
  characters \<open>a-z0-9\<close> that follows its first occurrence, which is the empty string (not
  \<open>undefined\<close>) when no such character follows; \<open>readProjectInfoFromProjectFile\<close>
  returns \<open>undefined\<close> exactly when that run is empty. Neither function raises.
\<close>

theorem readProjectId_absent_or_first:
  "(\<not> sublist ''# project: '' (resolver_read r path) \<longrightarrow>
      readProjectIdFromProjectFile r path = None \<and>
      readProjectInfoFromProjectFile r path = None) \<and>
   (\<forall>pre rest.
      resolver_read r path = pre @ ''# project: '' @ rest \<and>
      \<not> sublist ''# project: '' (pre @ ''# project:'') \<longrightarrow>
      readProjectIdFromProjectFile r path =
        Some (takeWhile (\<lambda>c. c \<in> set ''abcdefghijklmnopqrstuvwxyz0123456789'') rest) \<and>
      (readProjectInfoFromProjectFile r path = None \<longleftrightarrow>
         takeWhile (\<lambda>c. c \<in> set ''abcdefghijklmnopqrstuvwxyz0123456789'') rest = []))"
proof (intro conjI impI allI)
  assume a: "\<not> sublist ''# project: '' (resolver_read r path)"
  from readProjectId_absent(1)[OF a] show "readProjectIdFromProjectFile r path = None" .
  from readProjectId_absent(2)[OF a] show "readProjectInfoFromProjectFile r path = None" .
next
  fix pre rest
  assume a: "resolver_read r path = pre @ ''# project: '' @ rest \<and>
      \<not> sublist ''# project: '' (pre @ ''# project:'')"
  then show i: "readProjectIdFromProjectFile r path =
        Some (takeWhile (\<lambda>c. c \<in> set ''abcdefghijklmnopqrstuvwxyz0123456789'') rest)"
    using readProjectId_at_first by blast
  show "readProjectInfoFromProjectFile r path = None \<longleftrightarrow>
         takeWhile (\<lambda>c. c \<in> set ''abcdefghijklmnopqrstuvwxyz0123456789'') rest = []"
    unfolding readProjectInfoFromProjectFile_def i by simp
qed

theorem readProjectId_absent_or_first_witness:
  "readProjectIdFromProjectFile (resolver_of ''type A'') ''project.graphcool'' = None \<and>
   readProjectInfoFromProjectFile (resolver_of ''type A'') ''project.graphcool'' = None \<and>
   readProjectIdFromProjectFile (resolver_of ''# project: ABC'') ''project.graphcool'' = Some [] \<and>
   readProjectInfoFromProjectFile (resolver_of ''# project: ABC'') ''project.graphcool'' = None"
proof -
  have n: "\<not> sublist ''# project: '' (resolver_read (resolver_of ''type A'') ''project.graphcool'')"
    unfolding resolver_read_def resolver_of_def by code_simp
  have m: "\<not> sublist ''# project: '' ([] @ ''# project:'')" by code_simp
  have e: "resolver_read (resolver_of ''# project: ABC'') ''project.graphcool''
      = [] @ ''# project: '' @ ''ABC''"
    by (simp add: resolver_read_def resolver_of_def)
  from readProjectId_absent_or_first[of "resolver_of ''type A''" "''project.graphcool''"] n
  have 1: "readProjectIdFromProjectFile (resolver_of ''type A'') ''project.graphcool'' = None \<and>
   readProjectInfoFromProjectFile (resolver_of ''type A'') ''project.graphcool'' = None"
    by blast
  from readProjectId_absent_or_first[of "resolver_of ''# project: ABC''" "''project.graphcool''"] m e
  have "readProjectIdFromProjectFile (resolver_of ''# project: ABC'') ''project.graphcool'' =
        Some (takeWhile (\<lambda>c. c \<in> set ''abcdefghijklmnopqrstuvwxyz0123456789'') ''ABC'') \<and>
      (readProjectInfoFromProjectFile (resolver_of ''# project: ABC'') ''project.graphcool'' = None \<longleftrightarrow>
         takeWhile (\<lambda>c. c \<in> set ''abcdefghijklmnopqrstuvwxyz0123456789'') ''ABC'' = [])"
    by blast
  then have 2: "readProjectIdFromProjectFile (resolver_of ''# project: ABC'') ''project.graphcool'' = Some [] \<and>
   readProjectInfoFromProjectFile (resolver_of ''# project: ABC'') ''project.graphcool'' = None"
    by simp
  from 1 2 show ?thesis by simp
qed

text \<open>
  The id line \<open># project: ABC\<close> is malformed (the id is not lowercase), and the id read
  from it is the empty string, not \<open>undefined\<close>.
\<close>

theorem readProjectId_malformed_counterexample:
  "readProjectIdFromProjectFile (resolver_of ''# project: ABC'') ''project.graphcool'' = Some [] \<and>
   readProjectIdFromProjectFile (resolver_of ''# project: ABC'') ''project.graphcool'' \<noteq> None"
  by (simp add: readProjectId_eq resolver_read_def resolver_of_def idChars_def)

subsection \<open>Writing a project file and reading it back\<close>

lemma split_type:
  "xs1 @ xs2 = ''type'' \<Longrightarrow>
     xs1 = [] \<or> xs2 = [] \<or> (xs1 = ''t'' \<and> xs2 = ''ype'') \<or> (xs1 = ''ty'' \<and> xs2 = ''pe'')
     \<or> (xs1 = ''typ'' \<and> xs2 = ''e'')"
  by (auto simp: append_eq_Cons_conv)

text \<open>
  A version that holds no \<open>type\<close> puts none into the header: an occurrence would have to
  lie in the fixed text, in the version, or across one of their borders, and neither the
  space before the version nor the line break after it is a character of \<open>type\<close>.
\<close>

lemma no_type_in_version_header:
  assumes "\<not> sublist ''type'' ver"
  shows "\<not> sublist ''type''
           ((''# project: abc123\<newline># version: '' @ ver @ ''\<newline>\<newline>'') @ ''typ'')"
proof -
  have a: "\<not> sublist ''type'' ''# project: abc123\<newline># version: ''" by code_simp
  have b: "\<not> sublist ''type'' ''\<newline>\<newline>typ''" by code_simp
  have c: "\<not> sublist ''type'' (ver @ ''\<newline>\<newline>typ'')"
  proof
    assume "sublist ''type'' (ver @ ''\<newline>\<newline>typ'')"
    then consider "sublist ''type'' ver" | "sublist ''type'' ''\<newline>\<newline>typ''"
      | xs1 xs2 where "''type'' = xs1 @ xs2" "suffix xs1 ver" "prefix xs2 ''\<newline>\<newline>typ''"
      unfolding sublist_append by blast
    then show False
    proof cases
      case 1 then show ?thesis using assms by simp
    next
      case 2 then show ?thesis using b by simp
    next
      case 3
      from split_type[OF 3(1)[symmetric]] show ?thesis
      proof (elim disjE conjE)
        assume "xs1 = []" with 3 have "prefix ''type'' ''\<newline>\<newline>typ''" by simp
        then show False by simp
      next
        assume "xs2 = []" with 3 have "suffix ''type'' ver" by simp
        then have "sublist ''type'' ver" by (rule suffix_imp_sublist)
        then show False using assms by simp
      qed (use 3 in auto)
    qed
  qed
  show ?thesis
  proof
    assume "sublist ''type''
              ((''# project: abc123\<newline># version: '' @ ver @ ''\<newline>\<newline>'') @ ''typ'')"
    then have "sublist ''type''
                 (''# project: abc123\<newline># version: '' @ (ver @ ''\<newline>\<newline>typ''))"
      by simp
    then consider "sublist ''type'' ''# project: abc123\<newline># version: ''"
      | "sublist ''type'' (ver @ ''\<newline>\<newline>typ'')"
      | xs1 xs2 where "''type'' = xs1 @ xs2" "suffix xs1 ''# project: abc123\<newline># version: ''"
          "prefix xs2 (ver @ ''\<newline>\<newline>typ'')"
      unfolding sublist_append by blast
    then show False
    proof cases
      case 1 then show ?thesis using a by simp
    next
      case 2 then show ?thesis using c by simp
    next
      case 3
      from split_type[OF 3(1)[symmetric]] show ?thesis
      proof (elim disjE conjE)
        assume "xs1 = []"
        with 3 have "prefix ''type'' (ver @ ''\<newline>\<newline>typ'')" by simp
        then have "sublist ''type'' (ver @ ''\<newline>\<newline>typ'')" by (rule prefix_imp_sublist)
        then show False using c by simp
      next
        assume "xs2 = []"
        with 3 have "suffix ''type'' ''# project: abc123\<newline># version: ''" by simp
        then show False by (simp add: suffix_def append_eq_Cons_conv Cons_eq_append_conv)
      next
        assume "xs1 = ''t''"
        with 3 have "suffix ''t'' ''# project: abc123\<newline># version: ''" by simp
        then show False by (simp add: suffix_def append_eq_Cons_conv Cons_eq_append_conv)
      next
        assume "xs1 = ''ty''"
        with 3 have "suffix ''ty'' ''# project: abc123\<newline># version: ''" by simp
        then show False by (simp add: suffix_def append_eq_Cons_conv Cons_eq_append_conv)
      next
        assume "xs1 = ''typ''"
        with 3 have "suffix ''typ'' ''# project: abc123\<newline># version: ''" by simp
        then show False by (simp add: suffix_def append_eq_Cons_conv Cons_eq_append_conv)
      qed
    qed
  qed
qed

text \<open>
  Claim C9. Writing the project with id \<open>abc123\<close> and schema \<open>type User { id: ID! }\<close>
  with \<open>writeProjectFile\<close> to a path that ends in the project-file suffix (so that the
  file is written to that path and not to the default file name), with no version or a
  version that holds no \<open>type\<close>, and reading the same path back yields the project id
  \<open>abc123\<close> and a schema that begins with \<open>type User\<close> (it is the schema written).
\<close>

theorem project_file_roundtrip:
  assumes "isValidProjectFilePath k (Some path)"
    and "\<forall>ver. v = Some ver \<longrightarrow> \<not> sublist ''type'' ver"
  shows "readProjectIdFromProjectFile
           (writeProjectFile k \<lparr>projectId = ''abc123'', version = v, schema = ''type User { id: ID! }''\<rparr>
              r (Some path)) path = Some ''abc123'' \<and>
         map_option projectId (readProjectInfoFromProjectFile
           (writeProjectFile k \<lparr>projectId = ''abc123'', version = v, schema = ''type User { id: ID! }''\<rparr>
              r (Some path)) path) = Some ''abc123'' \<and>
         map_option schema (readProjectInfoFromProjectFile
           (writeProjectFile k \<lparr>projectId = ''abc123'', version = v, schema = ''type User { id: ID! }''\<rparr>
              r (Some path)) path) = Some ''type User { id: ID! }'' \<and>
         prefix ''type User'' (readDataModelFromProjectFile
           (writeProjectFile k \<lparr>projectId = ''abc123'', version = v, schema = ''type User { id: ID! }''\<rparr>
              r (Some path)) path)"
proof -
  let ?info = "\<lparr>projectId = ''abc123'', version = v, schema = ''type User { id: ID! }''\<rparr>"
  let ?r = "writeProjectFile k ?info r (Some path)"
  let ?hdr = "''# project: abc123\<newline>'' @
     (case v of None \<Rightarrow> [] | Some ver \<Rightarrow> ''# version: '' @ ver @ ''\<newline>'') @ ''\<newline>''"
  have rd: "resolver_read ?r path = ?hdr @ ''type'' @ '' User { id: ID! }''"
    using assms(1)
    by (simp add: writeProjectFile_def resolver_write_def resolver_read_def resolver_of_def
          projectInfoToContents_def)
  have nt: "\<not> sublist ''type'' (?hdr @ ''typ'')"
  proof (cases v)
    case None
    have "\<not> sublist ''type'' ''# project: abc123\<newline>\<newline>typ''" by code_simp
    then show ?thesis using None by simp
  next
    case (Some ver)
    then have "\<not> sublist ''type'' ver" using assms(2) by simp
    from no_type_in_version_header[OF this] show ?thesis using Some by simp
  qed
  have dm: "readDataModelFromProjectFile ?r path = ''type'' @ '' User { id: ID! }''"
    using rd nt by (rule readDataModel_at_first_type)
  have np: "\<not> sublist ''# project: '' ([] @ ''# project:'')" by code_simp
  have rd2: "resolver_read ?r path = [] @ ''# project: '' @
      (''abc123\<newline>'' @ (case v of None \<Rightarrow> [] | Some ver \<Rightarrow> ''# version: '' @ ver @ ''\<newline>'')
        @ ''\<newline>type User { id: ID! }'')"
    using rd by simp
  have "readProjectIdFromProjectFile ?r path =
      Some (takeWhile (\<lambda>c. c \<in> set ''abcdefghijklmnopqrstuvwxyz0123456789'')
        (''abc123\<newline>'' @ (case v of None \<Rightarrow> [] | Some ver \<Rightarrow> ''# version: '' @ ver @ ''\<newline>'')
        @ ''\<newline>type User { id: ID! }''))"
    using rd2 np by (rule readProjectId_at_first)
  then have pid: "readProjectIdFromProjectFile ?r path = Some ''abc123''"
    by simp
  show ?thesis using dm pid by (simp add: readProjectInfoFromProjectFile_def)
qed

theorem project_file_roundtrip_witness:
  "isValidProjectFilePath example_constants (Some ''my.graphcool'') \<and>
   readProjectIdFromProjectFile
     (writeProjectFile example_constants
        \<lparr>projectId = ''abc123'', version = Some ''1'', schema = ''type User { id: ID! }''\<rparr>
        (resolver_of []) (Some ''my.graphcool'')) ''my.graphcool'' = Some ''abc123'' \<and>
   prefix ''type User'' (readDataModelFromProjectFile
     (writeProjectFile example_constants
        \<lparr>projectId = ''abc123'', version = Some ''1'', schema = ''type User { id: ID! }''\<rparr>
        (resolver_of []) (Some ''my.graphcool'')) ''my.graphcool'')"
proof -
  have v: "isValidProjectFilePath example_constants (Some ''my.graphcool'')"
    by (simp add: isValidProjectFilePath_def endsWith_def example_constants_def)
  have "\<not> sublist ''type'' ''1''" by code_simp
  then have n: "\<forall>ver. Some ''1'' = Some ver \<longrightarrow> \<not> sublist ''type'' ver" by simp
  from project_file_roundtrip[OF v n, of "resolver_of []"] v show ?thesis by blast
qed

text \<open>
  With a path that does not end in the suffix, \<open>writeProjectFile\<close> writes the default
  file and leaves the given path as it was.
\<close>

lemma writeProjectFile_invalid_path:
  assumes "\<not> isValidProjectFilePath k (Some path)" and "path \<noteq> graphcoolProjectFileName k"
  shows "resolver_read (writeProjectFile k info r (Some path)) path = resolver_read r path"
  using assms by (simp add: writeProjectFile_def resolver_write_def resolver_read_def resolver_of_def)

section \<open>Deploy.deploy\<close>

lemma definition_deploy_begin [simp]:
  "definition_definition (deploy_begin pin tn pid il f pn s) = definition_definition s"
  by (simp add: deploy_begin_def emit_def Let_def)

lemma effects_deploy_begin:
  "effects (deploy_begin pin tn pid il f pn s) =
     effects s @ [ActionStart (deployingText pin tn il pn),
                  ClientPush pid f False (definition_definition s)]"
  by (simp add: deploy_begin_def emit_def Let_def)

lemma deploying_deploy_begin [simp]: "deploying (deploy_begin pin tn pid il f pn s)"
  by (simp add: deploy_begin_def emit_def Let_def)

text \<open>
  A deploy that returns has cleared the flag and logged the endpoint last; a deploy
  whose push rejects stops in the state \<open>deploy_begin\<close> left, with the flag set.
\<close>

lemma deploy_returned_clears_flag:
  assumes "deploy env pin tn pid il f pn s = (Returned, s')"
  shows "\<not> deploying s' \<and> effects s' \<noteq> [] \<and> last (effects s') = Log (endpointText env pid)"
  using assms
  by (auto simp: deploy_def deploy_resume_def definition_set_def bind_def emit_def Let_def
      split: sum.splits option.splits if_splits list.splits)

lemma deploy_rejected:
  assumes "client_push env pid f False (definition_definition s) = Inl msg"
  shows "deploy env pin tn pid il f pn s = (Threw (Rejected msg), deploy_begin pin tn pid il f pn s)"
  using assms by (simp add: deploy_def Let_def)

text \<open>
  Claim C1 fails on the code where the push rejects: the push of an existing project
  is refused with \<open>ECONNREFUSED\<close>, the deploy ends with that error, the \<open>deploying\<close> flag is
  still set, and nothing was logged after the push was sent (no endpoint).
\<close>

theorem deploy_push_rejected_keeps_flag:
  "fst (deploy (example_env (Inl ''ECONNREFUSED'')) False (Some ''dev'') ''cj1'' False False
          (Some ''dev'') idle) = Threw (Rejected ''ECONNREFUSED'') \<and>
   deploying (snd (deploy (example_env (Inl ''ECONNREFUSED'')) False (Some ''dev'') ''cj1'' False
          False (Some ''dev'') idle)) \<and>
   effects (snd (deploy (example_env (Inl ''ECONNREFUSED'')) False (Some ''dev'') ''cj1'' False
          False (Some ''dev'') idle)) =
     [ActionStart (deployingText False (Some ''dev'') False (Some ''dev'')),
      ClientPush ''cj1'' False False (Some ''local definition'')]"
  by (simp add: deploy_def deploy_begin_def emit_def Let_def example_env_def idle_def)

text \<open>
  Claim C4. When the push answers with a result whose \<open>migrationMessages\<close> and \<open>errors\<close>
  are both empty or absent, the deploy returns, what it reports after the push is
  exactly the up-to-date line and the endpoint line, \<open>definition.set\<close> is not called and
  the in-memory definition is the one before the deploy; the flag is cleared.
\<close>

theorem deploy_up_to_date:
  assumes "client_push env pid f False (definition_definition s) = Inr mr"
    and "migrationMessages mr = None \<or> migrationMessages mr = Some []"
    and "errors mr = None \<or> errors mr = Some []"
  shows "fst (deploy env pin tn pid il f pn s) = Returned \<and>
         effects (snd (deploy env pin tn pid il f pn s)) =
           effects s @ [ActionStart (deployingText pin tn il pn),
                        ClientPush pid f False (definition_definition s),
                        ActionStop, Log upToDateText, Log (endpointText env pid)] \<and>
         definition_definition (snd (deploy env pin tn pid il f pn s)) = definition_definition s \<and>
         \<not> deploying (snd (deploy env pin tn pid il f pn s))"
  using assms
  by (simp add: deploy_def deploy_resume_def definition_set_def emit_def Let_def effects_deploy_begin)

theorem deploy_up_to_date_witness:
  "fst (deploy (example_env (Inr up_to_date)) False (Some ''dev'') ''cj1'' False False
          (Some ''dev'') idle) = Returned \<and>
   effects (snd (deploy (example_env (Inr up_to_date)) False (Some ''dev'') ''cj1'' False False
          (Some ''dev'') idle)) =
     [ActionStart (deployingText False (Some ''dev'') False (Some ''dev'')),
      ClientPush ''cj1'' False False (Some ''local definition''),
      ActionStop, Log upToDateText,
      Log (endpointText (example_env (Inr up_to_date)) ''cj1'')]"
proof -
  have p: "client_push (example_env (Inr up_to_date)) ''cj1'' False False (definition_definition idle)
      = Inr up_to_date"
    by (simp add: example_env_def)
  have m: "migrationMessages up_to_date = None \<or> migrationMessages up_to_date = Some []"
    by (simp add: up_to_date_def)
  have e: "errors up_to_date = None \<or> errors up_to_date = Some []"
    by (simp add: up_to_date_def)
  from deploy_up_to_date[OF p m e, of False "Some ''dev''" False "Some ''dev''"]
  show ?thesis by (simp add: idle_def)
qed

text \<open>
  Claim C5. When the push answers with a result (of its declared type, both lists
  present) whose \<open>migrationMessages\<close> list is not empty, the deploy returns, and after
  the result is handled the in-memory definition is the result's \<open>projectDefinition\<close>,
  set by a call of \<open>definition.set\<close>.
\<close>

theorem deploy_sets_definition:
  assumes "client_push env pid f False (definition_definition s) = Inr mr"
    and "well_typed mr"
    and "migrationMessages mr = Some ms" and "ms \<noteq> []"
  shows "fst (deploy env pin tn pid il f pn s) = Returned \<and>
         definition_definition (snd (deploy env pin tn pid il f pn s)) = projectDefinition mr \<and>
         DefinitionSet (projectDefinition mr)
           \<in> set (effects (snd (deploy env pin tn pid il f pn s)))"
  using assms
  by (auto simp: deploy_def deploy_resume_def definition_set_def bind_def emit_def Let_def well_typed_def
        split: list.splits option.splits)

theorem deploy_sets_definition_witness:
  "well_typed migrated \<and>
   fst (deploy (example_env (Inr migrated)) False (Some ''dev'') ''cj1'' False False
          (Some ''dev'') idle) = Returned \<and>
   definition_definition (snd (deploy (example_env (Inr migrated)) False (Some ''dev'') ''cj1''
          False False (Some ''dev'') idle)) = Some ''server definition''"
proof -
  have p: "client_push (example_env (Inr migrated)) ''cj1'' False False (definition_definition idle)
      = Inr migrated"
    by (simp add: example_env_def)
  have w: "well_typed migrated" by (simp add: well_typed_def migrated_def)
  have m: "migrationMessages migrated = Some [''The type `Post` is created.'']"
    by (simp add: migrated_def)
  have n: "[''The type `Post` is created.''] \<noteq> []" by simp
  from deploy_sets_definition[OF p w m n, of False "Some ''dev''" False "Some ''dev''"] w
  show ?thesis by (simp add: migrated_def)
qed

text \<open>
  Outside that type: for an existing project and a result without an \<open>errors\<close> list,
  line 213 raises before \<open>definition.set\<close> is reached, and the definition stays as it was.
\<close>

lemma deploy_absent_errors_throws:
  assumes "client_push env pid f False (definition_definition s) = Inr mr"
    and "migrationMessages mr = Some ms" and "ms \<noteq> []" and "errors mr = None"
  shows "fst (deploy env False tn pid il f pn s) = Threw TypeError \<and>
         definition_definition (snd (deploy env False tn pid il f pn s)) = definition_definition s \<and>
         deploying (snd (deploy env False tn pid il f pn s))"
  using assms
  by (simp add: deploy_def deploy_resume_def definition_set_def bind_def emit_def Let_def)

text \<open>
  Claim C3, as amended. When the push answers with a result of its declared type (both
  lists present), the deploy returns, and the hint to use \<open>--force\<close> is logged exactly
  once when the first error's description contains \<open>destructive changes\<close>; it is not
  logged when the first error's description does not contain it, whatever the later
  errors say, nor when there is no error.
\<close>

theorem destructive_hint_first_error:
  assumes "client_push env pid f False (definition_definition s) = Inr mr"
    and "well_typed mr"
  shows "fst (deploy env pin tn pid il f pn s) = Returned \<and>
         (\<forall>e es. errors mr = Some (e # es) \<and> sublist ''destructive changes'' (description e) \<longrightarrow>
            count_list (effects (snd (deploy env pin tn pid il f pn s))) (Log dataLossHint) =
              Suc (count_list (effects s) (Log dataLossHint))) \<and>
         (\<forall>e es. errors mr = Some (e # es) \<and> \<not> sublist ''destructive changes'' (description e) \<longrightarrow>
            count_list (effects (snd (deploy env pin tn pid il f pn s))) (Log dataLossHint) =
              count_list (effects s) (Log dataLossHint)) \<and>
         (errors mr = Some [] \<longrightarrow>
            count_list (effects (snd (deploy env pin tn pid il f pn s))) (Log dataLossHint) =
              count_list (effects s) (Log dataLossHint))"
proof -
  from assms(2) obtain ms errs where m: "migrationMessages mr = Some ms" and e: "errors mr = Some errs"
    by (auto simp: well_typed_def)
  show ?thesis
  proof (cases errs)
    case Nil
    with assms(1) m e show ?thesis
      by (auto simp: deploy_def deploy_resume_def definition_set_def bind_def emit_def Let_def
            effects_deploy_begin dataLossHint_def endpointText_def upToDateText_def)
  next
    case (Cons e0 es0)
    with assms(1) m e show ?thesis
      by (auto simp: deploy_def deploy_resume_def definition_set_def bind_def emit_def Let_def
            effects_deploy_begin str_includes_iff dataLossHint_def endpointText_def)
  qed
qed

theorem destructive_hint_first_error_witness:
  "well_typed rejected_first \<and> well_typed rejected_second \<and>
   fst (deploy (example_env (Inr rejected_first)) False (Some ''dev'') ''cj1'' False False
          (Some ''dev'') idle) = Returned \<and>
   count_list (effects (snd (deploy (example_env (Inr rejected_first)) False (Some ''dev'') ''cj1''
          False False (Some ''dev'') idle))) (Log dataLossHint) = 1 \<and>
   count_list (effects (snd (deploy (example_env (Inr rejected_second)) False (Some ''dev'') ''cj1''
          False False (Some ''dev'') idle))) (Log dataLossHint) = 0"
proof -
  have p: "client_push (example_env (Inr rejected_first)) ''cj1'' False False
      (definition_definition idle) = Inr rejected_first"
    by (simp add: example_env_def)
  have w: "well_typed rejected_first" by (simp add: well_typed_def rejected_first_def)
  have e: "errors rejected_first =
     Some (\<lparr>description = ''Your migration includes potentially destructive changes.''\<rparr> #
           [\<lparr>description = ''The field `name` is required.''\<rparr>])"
    by (simp add: rejected_first_def)
  have d: "sublist ''destructive changes''
     (description \<lparr>description = ''Your migration includes potentially destructive changes.''\<rparr>)"
    by code_simp
  have p2: "client_push (example_env (Inr rejected_second)) ''cj1'' False False
      (definition_definition idle) = Inr rejected_second"
    by (simp add: example_env_def)
  have w2: "well_typed rejected_second" by (simp add: well_typed_def rejected_second_def)
  have e2: "errors rejected_second =
     Some (\<lparr>description = ''The field `name` is required.''\<rparr> #
           [\<lparr>description = ''Your migration includes potentially destructive changes.''\<rparr>])"
    by (simp add: rejected_second_def)
  have d2: "\<not> sublist ''destructive changes''
     (description \<lparr>description = ''The field `name` is required.''\<rparr>)"
    by code_simp
  from destructive_hint_first_error[OF p w, of False "Some ''dev''" False "Some ''dev''"] e d
  have 1: "fst (deploy (example_env (Inr rejected_first)) False (Some ''dev'') ''cj1'' False False
          (Some ''dev'') idle) = Returned \<and>
   count_list (effects (snd (deploy (example_env (Inr rejected_first)) False (Some ''dev'') ''cj1''
          False False (Some ''dev'') idle))) (Log dataLossHint) =
     Suc (count_list (effects idle) (Log dataLossHint))"
    by blast
  from destructive_hint_first_error[OF p2 w2, of False "Some ''dev''" False "Some ''dev''"] e2 d2
  have 2: "count_list (effects (snd (deploy (example_env (Inr rejected_second)) False (Some ''dev'') ''cj1''
          False False (Some ''dev'') idle))) (Log dataLossHint) =
     count_list (effects idle) (Log dataLossHint)"
    by blast
  from 1 2 w w2 show ?thesis by (simp add: idle_def)
qed

text \<open>
  The second error of \<open>rejected_second\<close> carries the marker, the first does not: the
  deploy returns and the hint is not logged.
\<close>

theorem destructive_hint_later_error_counterexample:
  "well_typed rejected_second \<and>
   sublist ''destructive changes'' (description (the (errors rejected_second) ! 1)) \<and>
   fst (deploy (example_env (Inr rejected_second)) False (Some ''dev'') ''cj1'' False False
          (Some ''dev'') idle) = Returned \<and>
   count_list (effects (snd (deploy (example_env (Inr rejected_second)) False (Some ''dev'') ''cj1''
          False False (Some ''dev'') idle))) (Log dataLossHint) = 0"
proof -
  have w: "well_typed rejected_second" by (simp add: well_typed_def rejected_second_def)
  have a: "sublist ''destructive changes'' (description (the (errors rejected_second) ! 1))"
    unfolding rejected_second_def by code_simp
  have n: "\<not> sublist ''destructive changes'' ''The field `name` is required.''" by code_simp
  have b: "fst (deploy (example_env (Inr rejected_second)) False (Some ''dev'') ''cj1'' False False
          (Some ''dev'') idle) = Returned \<and>
   count_list (effects (snd (deploy (example_env (Inr rejected_second)) False (Some ''dev'') ''cj1''
          False False (Some ''dev'') idle))) (Log dataLossHint) = 0"
    using n
    by (simp add: deploy_def deploy_resume_def definition_set_def bind_def emit_def Let_def effects_deploy_begin
        str_includes_iff dataLossHint_def endpointText_def example_env_def rejected_second_def
        idle_def)
  from w a b show ?thesis by simp
qed

text \<open>
  Outside the declared type: a result without a \<open>migrationMessages\<close> list whose first
  error carries the marker makes line 208 raise, and no hint is logged.
\<close>

lemma deploy_absent_messages_throws:
  assumes "client_push env pid f False (definition_definition s) = Inr mr"
    and "migrationMessages mr = None" and "errors mr = Some (e # es)"
  shows "fst (deploy env pin tn pid il f pn s) = Threw TypeError \<and>
         count_list (effects (snd (deploy env pin tn pid il f pn s))) (Log dataLossHint) =
           count_list (effects s) (Log dataLossHint)"
  using assms
  by (simp add: deploy_def deploy_resume_def definition_set_def bind_def emit_def Let_def effects_deploy_begin)

section \<open>Deploy.run\<close>

lemma deploy_resume_not_ServiceDoesntExist:
  "fst (deploy_resume env pin pid mr s) \<noteq> Threw (ServiceDoesntExistError t)"
  by (auto simp: deploy_resume_def definition_set_def bind_def Let_def split: option.splits list.splits)

lemma deploy_not_ServiceDoesntExist:
  "fst (deploy env pin tn pid il f pn s) \<noteq> Threw (ServiceDoesntExistError t)"
  by (simp add: deploy_def Let_def deploy_resume_not_ServiceDoesntExist split: sum.splits)

lemma createProject_not_ServiceDoesntExist:
  "fst (createProject env il cl nm al rg s) \<noteq> Inl (ServiceDoesntExistError t)"
  by (simp add: createProject_def Let_def split: sum.splits)

lemma bind_fst_Threw:
  "fst (bind r f) = Threw e \<Longrightarrow> fst r = Threw e \<or> (\<exists>s. fst (f s) = Threw e)"
  by (auto simp: bind_def split: prod.splits outcome.splits)

text \<open>
  No run ends with \<open>ServiceDoesntExistError\<close>: the test of line 93 is never true where
  it stands.
\<close>

lemma run_never_ServiceDoesntExist:
  "fst (run env flags s) \<noteq> Threw (ServiceDoesntExistError t)"
proof
  assume a: "fst (run env flags s) = Threw (ServiceDoesntExistError t)"
  obtain tn tg c0 s1 where r: "resolve env flags s = ((tn, tg, c0), s1)"
    by (metis prod_cases3 surj_pair)
  show False
  proof (cases "ensureAuth env")
    case (Some msg)
    with a r show False by (simp add: run_def Let_def)
  next
    case None
    show False
    proof (cases "definition_load env flags")
      case (Inl msg)
      with a r None show False by (simp add: run_def Let_def definition_load_call_def)
    next
      case (Inr d)
      show False
      proof (cases tg)
        case (Some t')
        with a r None Inr show False
          by (auto simp: run_def Let_def definition_load_call_def deploy_not_ServiceDoesntExist
                split: if_splits dest!: bind_fst_Threw)
      next
        case N: None
        with a r None Inr show False
          by (auto simp: run_def Let_def definition_load_call_def deploy_not_ServiceDoesntExist
                split: if_splits prod.splits sum.splits dest!: bind_fst_Threw)
             (metis createProject_not_ServiceDoesntExist fst_conv)+
      qed
    qed
  qed
qed

text \<open>
  Claim C7 fails on the code: with the target flag \<open>prod\<close>, no new-service flag and no
  known target of that name, the run does not fail; it creates a project, records a
  local target for it and deploys to it.
\<close>

theorem run_unresolved_target_creates_project:
  "getTargetWithName (example_env (Inr up_to_date)) (flag_target (example_flags (Some ''prod''))) = None \<and>
   fst (run (example_env (Inr up_to_date)) (example_flags (Some ''prod'')) idle) = Returned \<and>
   effects (snd (run (example_env (Inr up_to_date)) (example_flags (Some ''prod'')) idle)) =
     [EnsureAuth, DefinitionLoad, InjectEnvironment, Log [Plain []],
      ActionStart [Plain ''Creating service '', Styled Bold (Some ''Silly Name''),
                   Plain '' in cluster shared-eu-west-1''],
      ClientCreateProject ''Silly Name'' None None, ActionStop,
      SetLocalTarget None ''shared-eu-west-1/cjnew'',
      SetLocalDefaultTarget None, SaveLocalRC,
      ActionStart [Plain ''Deploying''],
      ClientPush ''cjnew'' False False (Some ''local definition''),
      ActionStop, Log [Plain ''Everything up-to-date.''],
      Log [Plain ''Endpoint: https://api.graph.cool/simple/v1/cjnew'']]"
  by (simp add: run_def resolve_def createProject_def definition_load_call_def
        definition_injectEnvironment_def deploy_def deploy_begin_def deploy_resume_def definition_set_def
        deployingText_def upToDateText_def endpointText_def
        bind_def emit_def Let_def example_env_def example_flags_def idle_def up_to_date_def
        truthy_def js_or_def)

section \<open>The watch callback\<close>

text \<open>
  When nothing runs in between, the three steps of one callback on the event loop do
  what \<open>watch_callback\<close> does.
\<close>

lemma callback_steps_agree:
  assumes "k < length (callbacks sys)" and "callbacks sys ! k = Scheduled"
    and "\<not> deploying (orchestrator sys)"
    and "definition_load env (c_flags c) = Inr d"
    and "client_push env (c_projectId c) (c_force c) False (Some d) = Inr mr"
  shows "orchestrator (run_events env c sys
           [RunImmediate k, LoadSettled k (Inr d), PushSettled k (Inr mr)]) =
         snd (watch_callback env c (orchestrator sys))"
  using assms
  by (simp add: run_events_def watch_callback_def definition_load_call_def deploy_def bind_def Let_def emit_def
        split: prod.splits outcome.splits)

text \<open>
  Claim C2, as amended. A scheduled watch callback that runs while the \<open>deploying\<close>
  flag is true does nothing: the orchestrator's state (flag, definition, everything
  sent to the collaborators) is unchanged, so there is no load and no deploy, and the
  callback is finished, not queued again.
\<close>

theorem watch_event_dropped_while_deploying:
  assumes "deploying (orchestrator sys)"
    and "k < length (callbacks sys)" and "callbacks sys ! k = Scheduled"
  shows "step env c sys (RunImmediate k) = sys\<lparr>callbacks := (callbacks sys)[k := Done]\<rparr> \<and>
         watch_callback env c (orchestrator sys) = (Returned, orchestrator sys)"
  using assms by (simp add: watch_callback_def definition_load_call_def)

theorem watch_event_dropped_while_deploying_witness:
  "deploying (orchestrator busy) \<and>
   step (example_env (Inr up_to_date)) example_closure busy (RunImmediate 1) =
     busy\<lparr>callbacks := [Pushing, Done]\<rparr> \<and>
   watch_callback (example_env (Inr up_to_date)) example_closure (orchestrator busy) =
     (Returned, orchestrator busy)"
proof -
  have d: "deploying (orchestrator busy)" by (simp add: busy_def)
  have k: "1 < length (callbacks busy)" by (simp add: busy_def)
  have s: "callbacks busy ! 1 = Scheduled" by (simp add: busy_def)
  from watch_event_dropped_while_deploying[OF d k s, of "example_env (Inr up_to_date)" example_closure] d
  show ?thesis by (simp add: busy_def)
qed

text \<open>
  Two runs of the event loop from an idle orchestrator. In the first, a file changes
  while a deploy is in flight (the flag is true after the first three events), the push
  settles before the loop runs the callback scheduled for that change, and the callback,
  which tests the flag only when it runs, is not dropped: it goes on to load the
  definition. In the second, two files change while the orchestrator is idle; both
  callbacks test the flag before either has reached \<open>deploy\<close> (the flag is set there,
  after the awaited load), both loads settle, and two pushes are in flight at once.
\<close>

theorem watch_not_dropped_counterexample:
  "deploying (orchestrator (run_events (example_env (Inr up_to_date)) example_closure
      \<lparr>orchestrator = idle, callbacks = []\<rparr>
      [FileChange, RunImmediate 0, LoadSettled 0 (Inr ''local definition'')])) \<and>
   callbacks (run_events (example_env (Inr up_to_date)) example_closure
      \<lparr>orchestrator = idle, callbacks = []\<rparr>
      [FileChange, RunImmediate 0, LoadSettled 0 (Inr ''local definition''),
       FileChange, PushSettled 0 (Inr up_to_date), RunImmediate 1]) = [Done, Loading] \<and>
   callbacks (run_events (example_env (Inr up_to_date)) example_closure
      \<lparr>orchestrator = idle, callbacks = []\<rparr>
      [FileChange, FileChange, RunImmediate 0, RunImmediate 1,
       LoadSettled 0 (Inr ''local definition''), LoadSettled 1 (Inr ''local definition'')])
     = [Pushing, Pushing] \<and>
   in_flight (run_events (example_env (Inr up_to_date)) example_closure
      \<lparr>orchestrator = idle, callbacks = []\<rparr>
      [FileChange, FileChange, RunImmediate 0, RunImmediate 1,
       LoadSettled 0 (Inr ''local definition''), LoadSettled 1 (Inr ''local definition'')]) = 2"
  by (simp add: in_flight_def run_events_def idle_def emit_def deploy_begin_def Let_def
        deploy_resume_def definition_set_def up_to_date_def)

end
